theory Spec2Isabelle
  imports Complex_Main
begin

section \<open>pactools: dehummer, Arma.estimate and whiten\<close>

text \<open>
  Shallow embedding of \<^verbatim>\<open>pactools/utils/dehumming.py\<close>, \<^verbatim>\<open>pactools/utils/arma.py\<close>
  and the function \<^verbatim>\<open>whiten\<close> of \<^verbatim>\<open>pactools/preprocess.py\<close>.
  NumPy's float64 values are modelled by the type \<^typ>\<open>real\<close> (exact arithmetic);
  Python's unbounded integers by \<^typ>\<open>int\<close>, lengths and orders by \<^typ>\<open>nat\<close>.
  Every exception of the source is a value of the type \<open>error\<close>.
\<close>

subsection \<open>Exceptions and Python built-ins\<close>

datatype error =
    ValueError
  | IndexError
  | ZeroDivisionError
  | LinAlgError
  | NotImplementedError
  | AttributeError
  | NonFinite

text \<open>
  \<open>NonFinite\<close> is not an exception of Python: it marks a returned array that holds
  \<open>nan\<close> or \<open>inf\<close> (NumPy only warns), which the type \<^typ>\<open>real\<close> cannot hold.
\<close>

text \<open>Python's \<^verbatim>\<open>int(x)\<close> on a float: truncation towards zero.\<close>

definition py_int :: "real \<Rightarrow> int" where
  "py_int x = (if 0 \<le> x then \<lfloor>x\<rfloor> else \<lceil>x\<rceil>)"

text \<open>
  Python's \<^verbatim>\<open>range(start, stop, step)\<close> as the list of its values; a zero step
  raises ValueError.
\<close>

definition py_range :: "int \<Rightarrow> int \<Rightarrow> int \<Rightarrow> error + int list" where
  "py_range start stop step =
     (if step = 0 then Inl ValueError
      else if 0 < step
        then Inr (map (\<lambda>j. start + int j * step) [0..<nat (- ((start - stop) div step))])
        else Inr (map (\<lambda>j. start + int j * step) [0..<nat (- ((stop - start) div (- step)))]))"

subsection \<open>One-dimensional NumPy arrays as lists\<close>

text \<open>
  A bound of a Python slice on a sequence of length \<open>n\<close>: a negative bound counts
  from the end, and the result is clipped to \<open>0..n\<close>.
\<close>

definition slice_bound :: "int \<Rightarrow> int \<Rightarrow> nat" where
  "slice_bound n i = nat (max 0 (min n (if i < 0 then i + n else i)))"

text \<open>\<^verbatim>\<open>xs[a:b]\<close>.\<close>

definition py_slice :: "'a list \<Rightarrow> int \<Rightarrow> int \<Rightarrow> 'a list" where
  "py_slice xs a b =
     (let n = int (length xs); lo = slice_bound n a; hi = slice_bound n b
      in take (hi - lo) (drop lo xs))"

text \<open>The array \<open>xs\<close> with the elements of \<^verbatim>\<open>xs[a:b]\<close> replaced by \<open>v\<close>.\<close>

definition splice :: "'a list \<Rightarrow> int \<Rightarrow> int \<Rightarrow> 'a list \<Rightarrow> 'a list" where
  "splice xs a b v =
     (let n = int (length xs); lo = slice_bound n a; hi = max lo (slice_bound n b)
      in take lo xs @ v @ drop hi xs)"

text \<open>
  An elementwise binary operation \<^verbatim>\<open>a op b\<close> on one-dimensional arrays: equal
  lengths, or one operand of length one that is broadcast; any other pair of shapes
  raises ValueError.
\<close>

definition np_binop :: "(real \<Rightarrow> real \<Rightarrow> real) \<Rightarrow> real list \<Rightarrow> real list \<Rightarrow> error + real list" where
  "np_binop f a b =
     (if length a = length b then Inr (map2 f a b)
      else if length a = 1 then Inr (map (f (hd a)) b)
      else if length b = 1 then Inr (map (\<lambda>x. f x (hd b)) a)
      else Inl ValueError)"

text \<open>
  An in-place operation on a slice, \<^verbatim>\<open>xs[a:b] op= s\<close>: the operand must have the
  shape of the slice or length one. With \<open>f = (\<lambda>_ y. y)\<close> this is the slice assignment
  \<^verbatim>\<open>xs[a:b] = s\<close>.
\<close>

definition np_islice :: "(real \<Rightarrow> real \<Rightarrow> real) \<Rightarrow> real list \<Rightarrow> int \<Rightarrow> int \<Rightarrow> real list \<Rightarrow> error + real list" where
  "np_islice f xs a b s =
     (let v = py_slice xs a b in
      if length s = length v then Inr (splice xs a b (map2 f v s))
      else if length s = 1 then Inr (splice xs a b (map (\<lambda>x. f x (hd s)) v))
      else Inl ValueError)"

text \<open>\<^verbatim>\<open>np.dot\<close> on two vectors, on a matrix (a list of rows) and a vector.\<close>

definition vdot :: "real list \<Rightarrow> real list \<Rightarrow> real" where
  "vdot u v = sum_list (map2 (*) u v)"

definition mat_vec :: "real list list \<Rightarrow> real list \<Rightarrow> real list" where
  "mat_vec A v = map (\<lambda>r. vdot r v) A"

text \<open>The transpose of a matrix with \<open>m\<close> columns.\<close>

definition mat_T :: "nat \<Rightarrow> real list list \<Rightarrow> real list list" where
  "mat_T m A = map (\<lambda>j. map (\<lambda>r. r ! j) A) [0..<m]"

subsection \<open>scipy.linalg.solve\<close>

text \<open>
  \<^verbatim>\<open>scipy.linalg.solve(A, b)\<close> is a library function: it returns the solution of the
  square system \<open>A x = b\<close>, and raises LinAlgError when \<open>A\<close> is singular and ValueError
  when the shapes do not fit. In exact arithmetic the solution is the one of Cramer's
  rule, with the determinant expanded along the first row.
\<close>

definition del_nth :: "nat \<Rightarrow> 'a list \<Rightarrow> 'a list" where
  "del_nth j xs = take j xs @ drop (Suc j) xs"

function det :: "real list list \<Rightarrow> real" where
  "det [] = 1"
| "det (r # rs) = (\<Sum>j\<leftarrow>[0..<length r]. (- 1) ^ j * r ! j * det (map (del_nth j) rs))"
  by pat_completeness auto
termination
  by (relation "measure length") auto

definition set_col :: "nat \<Rightarrow> real list \<Rightarrow> real list list \<Rightarrow> real list list" where
  "set_col i b A = map2 (\<lambda>r v. r[i := v]) A b"

definition solve :: "real list list \<Rightarrow> real list \<Rightarrow> error + real list" where
  "solve A b =
     (if (\<exists>r \<in> set A. length r \<noteq> length A) \<or> length b \<noteq> length A then Inl ValueError
      else if det A = 0 then Inl LinAlgError
      else Inr (map (\<lambda>i. det (set_col i b A) / det A) [0..<length A]))"

subsection \<open>dehummer: the overlap-add window\<close>

text \<open>
  \<^verbatim>\<open>np.hamming(M)\<close> is a library function: the empty array for \<open>M < 1\<close>, \<open>[1.0]\<close> for
  \<open>M = 1\<close>, and \<open>0.54 - 0.46 cos(2 \<pi> n / (M - 1))\<close> for \<open>0 \<le> n < M\<close> otherwise.
\<close>

definition hamming :: "int \<Rightarrow> real list" where
  "hamming M =
     (if M < 1 then []
      else if M = 1 then [1]
      else map (\<lambda>n. 0.54 - 0.46 * cos (2 * pi * real n / real_of_int (M - 1))) [0..<nat M])"

text \<open>
  Lines 32 to 36: the Hamming window, its first half divided by the sum of the two
  halves, and the second half overwritten with the first half reversed.
\<close>

definition dehum_window :: "int \<Rightarrow> error + real list" where
  "dehum_window blklen =
     (let blklen_o2 = blklen div 2;
          window = hamming blklen
      in case np_binop (+) (py_slice window 0 blklen_o2) (py_slice window blklen_o2 blklen) of
           Inl e \<Rightarrow> Inl e
         | Inr s \<Rightarrow>
            (case np_islice (/) window 0 blklen_o2 s of
               Inl e \<Rightarrow> Inl e
             | Inr window \<Rightarrow>
                 np_islice (\<lambda>_ y. y) window blklen_o2 blklen (rev (py_slice window 0 blklen_o2))))"

subsection \<open>single_estimate\<close>

text \<open>
  Lines 139 to 148. Row \<open>t\<close> of the matrix \<open>X\<close>: \<open>cos (fact k * t)\<close> for the harmonics
  \<open>k = 1..hmax\<close>, then \<open>cos (fact k * t + \<pi>/2)\<close>, where \<open>fact k = 2 \<pi> f / fs * k\<close>.
\<close>

definition design_row :: "real \<Rightarrow> real \<Rightarrow> nat \<Rightarrow> nat \<Rightarrow> real list" where
  "design_row f fs hmax t =
     map (\<lambda>k. cos (2 * pi * f / fs * real (Suc k) * real t)) [0..<hmax]
     @ map (\<lambda>k. cos (2 * pi * f / fs * real (Suc k) * real t + pi / 2)) [0..<hmax]"

text \<open>
  \<^verbatim>\<open>np.empty((len(sigin), hmax))\<close> raises ValueError for a negative \<open>hmax\<close>, and the
  float division by \<open>fs\<close> raises ZeroDivisionError for \<open>fs = 0\<close>.
\<close>

definition single_estimate :: "real list \<Rightarrow> real \<Rightarrow> real \<Rightarrow> int \<Rightarrow> error + real list" where
  "single_estimate sigin f fs hmax =
     (if hmax < 0 then Inl ValueError
      else if fs = 0 then Inl ZeroDivisionError
      else
        let X = map (design_row f fs (nat hmax)) [0..<length sigin];
            Xt = mat_T (2 * nat hmax) X;
            XX = map (\<lambda>ci. map (vdot ci) Xt) Xt;
            Xy = mat_vec Xt sigin
        in case solve XX Xy of
             Inl e \<Rightarrow> Inl e
           | Inr theta \<Rightarrow> Inr (mat_vec X theta))"

subsection \<open>dehummer: the search for the frequency of one block\<close>

text \<open>
  The local variables of lines 65 to 85. The field \<open>tried\<close> is not in the source: it
  logs the frequency of every call of \<open>single_estimate\<close>, in call order, so that the
  regression solves of a block can be counted.
\<close>

record search =
  f0 :: real
  best_f :: real
  best_sigout :: "real list"
  best_energy :: real
  tried :: "real list"

text \<open>
  Lines 66 to 69: the fit at the nominal frequency. An exception leaves the search
  with the exception and the log of the calls made.
\<close>

definition search_init :: "real list \<Rightarrow> real \<Rightarrow> real \<Rightarrow> int \<Rightarrow> error \<times> real list + search" where
  "search_init blk enf fs hmax =
     (case single_estimate blk enf fs hmax of
        Inl e \<Rightarrow> Inl (e, [enf])
      | Inr sigenf \<Rightarrow>
         (case np_binop (-) blk sigenf of
            Inl e \<Rightarrow> Inl (e, [enf])
          | Inr sigout \<Rightarrow>
              Inr \<lparr>f0 = enf, best_f = enf, best_sigout = sigout,
                   best_energy = vdot sigout sigout, tried = [enf]\<rparr>))"

text \<open>Lines 77 to 84: one candidate frequency; only a strictly smaller energy replaces the best.\<close>

definition try_freq :: "real list \<Rightarrow> real \<Rightarrow> int \<Rightarrow> real \<Rightarrow> search \<Rightarrow> error \<times> real list + search" where
  "try_freq blk fs hmax f s =
     (case single_estimate blk f fs hmax of
        Inl e \<Rightarrow> Inl (e, tried s @ [f])
      | Inr sigenf \<Rightarrow>
         (case np_binop (-) blk sigenf of
            Inl e \<Rightarrow> Inl (e, tried s @ [f])
          | Inr sigout \<Rightarrow>
              (let energy = vdot sigout sigout;
                   s = s\<lparr>tried := tried s @ [f]\<rparr>
               in if energy < best_energy s
                  then Inr (s\<lparr>best_f := f, best_sigout := sigout, best_energy := energy\<rparr>)
                  else Inr s)))"

text \<open>
  Lines 71 to 73: \<open>shift_max\<close> is 9 for either step, and the shifts are
  \<^verbatim>\<open>np.r_[-shifts[::-1], shifts]\<close> with \<open>shifts = 1..9\<close>.
\<close>

definition shifts_of :: "real \<Rightarrow> int list" where
  "shifts_of delta =
     (let shift_max = (if delta = 0.01 then 9 else 9 :: int);
          shifts = map int [1..<nat (shift_max + 1)]
      in map uminus (rev shifts) @ shifts)"

text \<open>Lines 75 to 84: the loop over the shifts, with \<open>f = f0 + shift * delta\<close>.\<close>

fun shift_loop :: "real list \<Rightarrow> real \<Rightarrow> int \<Rightarrow> real \<Rightarrow> search \<Rightarrow> int list \<Rightarrow> error \<times> real list + search" where
  "shift_loop blk fs hmax delta s [] = Inr s"
| "shift_loop blk fs hmax delta s (shift # shifts) =
     (case try_freq blk fs hmax (f0 s + of_int shift * delta) s of
        Inl x \<Rightarrow> Inl x
      | Inr s' \<Rightarrow> shift_loop blk fs hmax delta s' shifts)"

text \<open>
  Line 70 iterates over the set literal \<^verbatim>\<open>{0.1, 0.01}\<close>. CPython yields the elements
  of a set in the order of their slots in its hash table; in the table of 8 slots of
  this literal, 0.1 has slot \<open>hash(0.1) mod 8 = 0\<close> and 0.01 has slot
  \<open>hash(0.01) mod 8 = 4\<close>, so the loop sees 0.1 and then 0.01.
\<close>

definition deltas :: "real list" where
  "deltas = [0.1, 0.01]"

text \<open>Lines 70 to 85: the loop over the steps; line 85 moves \<open>f0\<close> to the best frequency.\<close>

fun delta_loop :: "real list \<Rightarrow> real \<Rightarrow> int \<Rightarrow> search \<Rightarrow> real list \<Rightarrow> error \<times> real list + search" where
  "delta_loop blk fs hmax s [] = Inr s"
| "delta_loop blk fs hmax s (delta # ds) =
     (case shift_loop blk fs hmax delta s (shifts_of delta) of
        Inl x \<Rightarrow> Inl x
      | Inr s' \<Rightarrow> delta_loop blk fs hmax (s'\<lparr>f0 := best_f s'\<rparr>) ds)"

definition block_search :: "real list \<Rightarrow> real \<Rightarrow> real \<Rightarrow> int \<Rightarrow> error \<times> real list + search" where
  "block_search blk enf fs hmax =
     (case search_init blk enf fs hmax of
        Inl x \<Rightarrow> Inl x
      | Inr s \<Rightarrow> delta_loop blk fs hmax s deltas)"

subsection \<open>dehummer: the block loop's indices\<close>

text \<open>
  Lines 51 to 62 of \<^verbatim>\<open>dehumming.py\<close>: the indices of the block centred at
  \<open>tmid\<close>, truncated at both ends of the signal, and the matching slice of the window.
  The result is \<open>(tstart, tstop, wstart, wstop)\<close>.
\<close>

definition block_bounds :: "int \<Rightarrow> int \<Rightarrow> int \<Rightarrow> int \<times> int \<times> int \<times> int" where
  "block_bounds tmax blklen tmid =
     (let blklen_o2 = blklen div 2;
          tstart = tmid - blklen_o2;
          (wstart, tstart) = (if tstart < 0 then (- tstart, 0) else (0, tstart));
          tstop = tmid + blklen_o2;
          (wstop, tstop) = (if tstop > tmax then (blklen + tmax - tstop, tmax) else (blklen, tstop))
      in (tstart, tstop, wstart, wstop))"

text \<open>Line 49: the block centres, \<^verbatim>\<open>range(0, tmax + blklen_o2, blklen_o2)\<close>.\<close>

definition block_centres :: "int \<Rightarrow> int \<Rightarrow> error + int list" where
  "block_centres tmax blklen = py_range 0 (tmax + blklen div 2) (blklen div 2)"

text \<open>Line 44: the length of the frequency track, \<^verbatim>\<open>2 + 2 * tmax // blklen\<close>.\<close>

definition freq_len :: "int \<Rightarrow> int \<Rightarrow> int" where
  "freq_len tmax blklen = 2 + 2 * tmax div blklen"

subsection \<open>dehummer\<close>

text \<open>
  The arrays and the counter of the block loop. The field \<open>solves\<close> is not in the
  source: it counts the calls of \<open>single_estimate\<close>.
\<close>

record dehum_state =
  result :: "real list"
  freq :: "real list"
  kf :: nat
  solves :: nat

text \<open>Lines 50 to 95: one block. \<^verbatim>\<open>freq[kf] = best_f\<close> raises IndexError out of range.\<close>

definition process_block ::
    "real list \<Rightarrow> real \<Rightarrow> real \<Rightarrow> int \<Rightarrow> int \<Rightarrow> real list \<Rightarrow> dehum_state \<Rightarrow> int \<Rightarrow> error + dehum_state" where
  "process_block sig fs enf hmax blklen window st tmid =
     (case block_bounds (int (length sig)) blklen tmid of
        (tstart, tstop, wstart, wstop) \<Rightarrow>
          (case block_search (py_slice sig tstart tstop) enf fs hmax of
             Inl (e, _) \<Rightarrow> Inl e
           | Inr s \<Rightarrow>
              (case np_binop (*) (best_sigout s) (py_slice window wstart wstop) of
                 Inl e \<Rightarrow> Inl e
               | Inr v \<Rightarrow>
                  (case np_islice (+) (result st) tstart tstop v of
                     Inl e \<Rightarrow> Inl e
                   | Inr res \<Rightarrow>
                       if length (freq st) \<le> kf st then Inl IndexError
                       else Inr \<lparr>result = res, freq = (freq st)[kf st := best_f s],
                                 kf = Suc (kf st), solves = solves st + length (tried s)\<rparr>))))"

fun block_loop ::
    "real list \<Rightarrow> real \<Rightarrow> real \<Rightarrow> int \<Rightarrow> int \<Rightarrow> real list \<Rightarrow> dehum_state \<Rightarrow> int list \<Rightarrow> error + dehum_state" where
  "block_loop sig fs enf hmax blklen window st [] = Inr st"
| "block_loop sig fs enf hmax blklen window st (tmid # tmids) =
     (case process_block sig fs enf hmax blklen window st tmid of
        Inl e \<Rightarrow> Inl e
      | Inr st' \<Rightarrow> block_loop sig fs enf hmax blklen window st' tmids)"

text \<open>
  Lines 30 to 98, without the plots (\<open>draw = ''\<close>) and the progress bar. The float
  division by \<open>enf = 0\<close> raises ZeroDivisionError, as does \<^verbatim>\<open>2 * tmax // blklen\<close> for
  \<open>blklen = 0\<close>; \<^verbatim>\<open>np.zeros\<close> of a negative length raises ValueError. When the clamped
  \<open>hmax\<close> is 0 the input is returned before the frequency track is allocated.
\<close>

definition dehummer_run :: "real list \<Rightarrow> real \<Rightarrow> real \<Rightarrow> int \<Rightarrow> int \<Rightarrow> error + dehum_state" where
  "dehummer_run sig fs enf hmax blklen =
     (if enf = 0 then Inl ZeroDivisionError
      else
        let hmax = min hmax (py_int (0.5 * fs / enf))
        in case dehum_window blklen of
             Inl e \<Rightarrow> Inl e
           | Inr window \<Rightarrow>
               if hmax = 0 then Inr \<lparr>result = sig, freq = [], kf = 0, solves = 0\<rparr>
               else
                 let tmax = int (length sig)
                 in if blklen = 0 then Inl ZeroDivisionError
                    else if freq_len tmax blklen < 0 then Inl ValueError
                    else
                      (case block_centres tmax blklen of
                         Inl e \<Rightarrow> Inl e
                       | Inr tmids \<Rightarrow>
                           block_loop sig fs enf hmax blklen window
                             \<lparr>result = replicate (length sig) 0,
                              freq = replicate (nat (freq_len tmax blklen)) 0,
                              kf = 0, solves = 0\<rparr> tmids))"

definition dehummer :: "real list \<Rightarrow> real \<Rightarrow> real \<Rightarrow> int \<Rightarrow> int \<Rightarrow> error + real list" where
  "dehummer sig fs enf hmax blklen = map_sum id result (dehummer_run sig fs enf hmax blklen)"

subsection \<open>Arma.estimate\<close>

text \<open>A float64 scalar that may be \<open>nan\<close>; \<^verbatim>\<open>np.sqrt\<close> of a negative number is \<open>nan\<close>.\<close>

datatype npfloat = Finite real | NaN

definition np_sqrt :: "real \<Rightarrow> npfloat" where
  "np_sqrt x = (if x < 0 then NaN else Finite (sqrt x))"

text \<open>\<^verbatim>\<open>xs[i]\<close> on a Python list: a negative index counts from the end.\<close>

definition py_index :: "'a list \<Rightarrow> int \<Rightarrow> error + 'a" where
  "py_index xs i =
     (let n = int (length xs); j = (if i < 0 then n + i else i)
      in if 0 \<le> j \<and> j < n then Inr (xs ! nat j) else Inl IndexError)"

text \<open>\<^verbatim>\<open>x[idx]\<close> with an array of integer indices.\<close>

fun np_take :: "'a list \<Rightarrow> int list \<Rightarrow> error + 'a list" where
  "np_take xs [] = Inr []"
| "np_take xs (i # idx) =
     (case py_index xs i of
        Inl e \<Rightarrow> Inl e
      | Inr v \<Rightarrow> (case np_take xs idx of Inl e \<Rightarrow> Inl e | Inr vs \<Rightarrow> Inr (v # vs)))"

text \<open>
  \<^verbatim>\<open>fftpack.ifft(x, n)\<close> is a library function: \<open>x\<close> is truncated or padded with zeros
  to \<open>n\<close> points, and \<open>y[k] = 1/n * sum_m x[m] * exp(2 \<pi> i k m / n)\<close>.
\<close>

definition ifft :: "real list \<Rightarrow> nat \<Rightarrow> complex list" where
  "ifft x n =
     (let x = take n x @ replicate (n - length x) 0
      in map (\<lambda>k. (\<Sum>m\<leftarrow>[0..<n]. of_real (x ! m) * cis (2 * pi * real k * real m / real n)) / of_nat n)
           [0..<n])"

text \<open>
  \<^verbatim>\<open>linalg.toeplitz(c, r)\<close> is a library function: the matrix with first column \<open>c\<close> and
  first row \<open>r\<close> (\<open>r[0]\<close> is ignored), \<open>T[i][j] = c[i - j]\<close> for \<open>i \<ge> j\<close> and \<open>r[j - i]\<close>
  otherwise.
\<close>

definition toeplitz :: "real list \<Rightarrow> real list \<Rightarrow> real list list" where
  "toeplitz c r =
     map (\<lambda>i. map (\<lambda>j. if j \<le> i then c ! (i - j) else r ! (j - i)) [0..<length r]) [0..<length c]"

text \<open>
  The attributes of an \<^verbatim>\<open>Arma\<close> object that \<^verbatim>\<open>estimate\<close> and \<^verbatim>\<open>inverse\<close> use. The
  orders are counts, modelled as natural numbers. The class \<^verbatim>\<open>Spectrum\<close>, which sets
  \<open>fftlen\<close> and fills the history \<open>psd\<close>, is not part of the sources; an entry of \<open>psd\<close>
  is the row \<^verbatim>\<open>psd[i][0]\<close>. The field \<open>AR\<close> is the attribute \<^verbatim>\<open>AR_\<close>; \<open>AR\<close> and \<open>MA\<close> are
  \<open>None\<close> until \<^verbatim>\<open>estimate\<close> assigns them.
\<close>

record arma =
  ordar :: nat
  ordma :: nat
  fftlen :: nat
  psd :: "real list list"
  AR :: "real list option"
  MA :: "npfloat list option"

text \<open>
  Lines 37 to 62. The result is the exception raised, if any, and the object as the
  call leaves it. \<open>nbcorr = None\<close> is the default \<^verbatim>\<open>np.nan\<close>. \<^verbatim>\<open>ifft\<close> raises ValueError
  for \<open>fftlen < 1\<close>; \<^verbatim>\<open>linalg.solve\<close> raises ValueError unless \<open>R\<close> is square, and
  \<^verbatim>\<open>np.dot\<close> raises ValueError on vectors of different lengths.
\<close>

definition estimate :: "arma \<Rightarrow> nat option \<Rightarrow> int \<Rightarrow> error option \<times> arma" where
  "estimate self nbcorr numpsd =
     (let nbcorr = (case nbcorr of None \<Rightarrow> ordar self | Some n \<Rightarrow> n)
      in case py_index (psd self) numpsd of
           Inl e \<Rightarrow> (Some e, self)
         | Inr p \<Rightarrow>
            if fftlen self < 1 then (Some ValueError, self)
            else
              let correl = map Re (ifft p (fftlen self));
                  col1 = py_slice correl (int (ordma self)) (int (ordma self + nbcorr))
              in case np_take correl (map (\<lambda>j. \<bar>int (ordma self) - int j\<bar>) [0..<ordar self]) of
                   Inl e \<Rightarrow> (Some e, self)
                 | Inr row1 \<Rightarrow>
                    let R = toeplitz col1 row1;
                        r = map uminus (py_slice correl (int (ordma self) + 1) (int (ordma self + nbcorr) + 1))
                    in if length col1 \<noteq> length row1 then (Some ValueError, self)
                       else
                         (case solve R r of
                            Inl e \<Rightarrow> (Some e, self)
                          | Inr a \<Rightarrow>
                             let self = self\<lparr>AR := Some a\<rparr>
                             in if ordma self = 0
                                then
                                  let c = py_slice correl 1 (int (ordar self) + 1)
                                  in if length a \<noteq> length c then (Some ValueError, self)
                                     else
                                       let sigma2 = correl ! 0 + vdot a c
                                       in (None, self\<lparr>MA := Some [np_sqrt sigma2]\<rparr>)
                                else (Some NotImplementedError, self)))"

text \<open>
  The three steps of the estimation as the specification words them, for a PSD \<open>p\<close>,
  a transform length \<open>n\<close> and an order \<open>p_ord\<close>: the correlation is the real part of
  the inverse Fourier transform; the system matrix holds the lags \<open>0..ordar-1\<close>, the
  right-hand side the negated lags \<open>1..ordar\<close>; the gain is the square root of
  \<open>correl[0] + sum_i AR[i] * correl[i+1]\<close>.
\<close>

definition yule_walker_spec :: "real list \<Rightarrow> nat \<Rightarrow> nat \<Rightarrow> error + real list \<times> npfloat" where
  "yule_walker_spec p n p_ord =
     (let correl = map Re (ifft p n);
          R = map (\<lambda>i. map (\<lambda>j. correl ! nat \<bar>int i - int j\<bar>) [0..<p_ord]) [0..<p_ord];
          rhs = map (\<lambda>i. - correl ! (i + 1)) [0..<p_ord]
      in case solve R rhs of
           Inl e \<Rightarrow> Inl e
         | Inr a \<Rightarrow> Inr (a, np_sqrt (correl ! 0 + (\<Sum>i\<leftarrow>[0..<p_ord]. a ! i * correl ! (i + 1)))))"

subsection \<open>Arma.inverse\<close>

text \<open>
  \<^verbatim>\<open>signal.fftconvolve(x, a, 'same')\<close> is a library function: the centre of the full
  linear convolution, of the length of \<open>x\<close>, starting at index \<open>(len(a) - 1) // 2\<close>;
  the empty array when an argument is empty.
\<close>

definition fftconvolve_same :: "real list \<Rightarrow> real list \<Rightarrow> real list" where
  "fftconvolve_same x a =
     (if x = [] \<or> a = [] then []
      else
        let full = map (\<lambda>n. \<Sum>k\<leftarrow>[0..<length a]. if k \<le> n \<and> n - k < length x then x ! (n - k) * a ! k else 0)
                     [0..<length x + length a - 1]
        in take (length x) (drop ((length a - 1) div 2) full))"

text \<open>Lines 84 and 85; reading \<^verbatim>\<open>AR_\<close> before any estimation raises AttributeError.\<close>

definition inverse :: "arma \<Rightarrow> real list \<Rightarrow> error + real list" where
  "inverse self sigin =
     (case AR self of
        None \<Rightarrow> Inl AttributeError
      | Some ar \<Rightarrow> Inr (fftconvolve_same sigin (1 # ar)))"

subsection \<open>whiten\<close>

text \<open>\<^verbatim>\<open>np.linspace(a, b, n, endpoint=False)\<close>: \<open>a + i * (b - a) / n\<close> for \<open>0 \<le> i < n\<close>.\<close>

definition linspace :: "real \<Rightarrow> real \<Rightarrow> nat \<Rightarrow> real list" where
  "linspace a b n = map (\<lambda>i. a + real i * (b - a) / real n) [0..<n]"

text \<open>
  Lines 206 to 218: the notch of harmonic \<open>k\<close> in the PSD \<open>p\<close> (\<^verbatim>\<open>ar.psd[-1][0]\<close>) of
  transform length \<open>n\<close> (\<^verbatim>\<open>ar.fftlen\<close>). The float
  division by \<open>fs = 0\<close> raises ZeroDivisionError, an index out of range IndexError,
  \<^verbatim>\<open>np.linspace\<close> with a negative number of samples ValueError, and a slice
  assignment of the wrong shape ValueError.
\<close>

definition notch_step :: "nat \<Rightarrow> real \<Rightarrow> real \<Rightarrow> real \<Rightarrow> nat \<Rightarrow> real list \<Rightarrow> error + real list" where
  "notch_step n fs enf d_enf k p =
     (if fs = 0 then Inl ZeroDivisionError
      else
        let fmin = real k * (enf - d_enf);
            fmax = real k * (enf + d_enf);
            kmin = max 0 (py_int (real n * fmin / fs));
            kmax = min (int n div 2) (py_int (real n * fmax / fs) + 1)
        in case py_index p kmin of
             Inl e \<Rightarrow> Inl e
           | Inr Amin \<Rightarrow>
              (case py_index p kmax of
                 Inl e \<Rightarrow> Inl e
               | Inr Amax \<Rightarrow>
                  if kmax - kmin < 0 then Inl ValueError
                  else
                    let interpol = map2 (+) (map ((*) Amin) (linspace 1 0 (nat (kmax - kmin))))
                                            (map ((*) Amax) (linspace 0 1 (nat (kmax - kmin))))
                    in case np_islice (\<lambda>_ y. y) p kmin kmax interpol of
                         Inl e \<Rightarrow> Inl e
                       | Inr p \<Rightarrow> np_islice (\<lambda>_ y. y) p (- kmax) (- kmin) (rev interpol)))"

text \<open>
  Lines 203 to 220: the loop over the harmonics. It does not end when
  \<open>enf - d_enf \<le> 0 < fs\<close> and no step raises, so the model counts its iterations
  down from a bound; \<open>None\<close> means that the bound was reached.
\<close>

fun notch_loop :: "nat \<Rightarrow> nat \<Rightarrow> real \<Rightarrow> real \<Rightarrow> real \<Rightarrow> nat \<Rightarrow> real list \<Rightarrow> (error + real list) option" where
  "notch_loop 0 n fs enf d_enf k p = None"
| "notch_loop (Suc fuel) n fs enf d_enf k p =
     (if real k * (enf - d_enf) < fs / 2
      then (case notch_step n fs enf d_enf k p of
              Inl e \<Rightarrow> Some (Inl e)
            | Inr p' \<Rightarrow> notch_loop fuel n fs enf d_enf (Suc k) p')
      else Some (Inr p))"

text \<open>\<^verbatim>\<open>np.std\<close> of a non-empty array: the square root of the mean squared deviation.\<close>

definition np_std :: "real list \<Rightarrow> real" where
  "np_std x =
     (let n = real (length x); m = sum_list x / n
      in sqrt (sum_list (map (\<lambda>v. (v - m)\<^sup>2) x) / n))"

text \<open>
  Lines 238 and 239: the gain. An empty \<open>sigout\<close> stays the empty array, which holds
  no value. Otherwise \<^verbatim>\<open>np.std\<close> of an empty \<open>sig\<close> is \<open>nan\<close> and the division by a zero
  deviation gives \<open>inf\<close> or \<open>nan\<close>, and then no entry of the product is finite.
\<close>

definition rescale :: "real list \<Rightarrow> real list \<Rightarrow> error + real list" where
  "rescale sig sigout =
     (if sigout = [] then Inr []
      else if sig = [] \<or> np_std sigout = 0 then Inl NonFinite
      else
        let gain = np_std sig / np_std sigout
        in Inr (map (\<lambda>v. v * gain) sigout))"

text \<open>
  Lines 230 to 236: the inverse filter, once, or forward and on the reversed signal
  with the result reversed back.
\<close>

definition whiten_filter :: "arma \<Rightarrow> real list \<Rightarrow> bool \<Rightarrow> error + real list" where
  "whiten_filter ar sig zero_phase =
     (if zero_phase
      then (case inverse ar sig of
              Inl e \<Rightarrow> Inl e
            | Inr sigout \<Rightarrow>
               (case inverse ar (rev sigout) of
                  Inl e \<Rightarrow> Inl e
                | Inr sigout \<Rightarrow> Inr (rev sigout)))
      else inverse ar sig)"

text \<open>Lines 230 to 239: the filter and the gain.\<close>

definition whiten_apply :: "arma \<Rightarrow> real list \<Rightarrow> bool \<Rightarrow> error + real list" where
  "whiten_apply ar sig zero_phase =
     (case whiten_filter ar sig zero_phase of
        Inl e \<Rightarrow> Inl e
      | Inr sigout \<Rightarrow> rescale sig sigout)"

text \<open>
  Lines 222 to 227, on the \<^verbatim>\<open>Arma\<close> object whose last PSD \<open>p\<close> has been notched. In
  zero-phase mode the PSD is replaced by its square root. A negative entry among
  the \<open>fftlen\<close> entries that \<^verbatim>\<open>ifft\<close> reads becomes \<open>nan\<close>, and then every correlation
  is \<open>nan\<close>: the indexing and the shapes are checked as before, \<^verbatim>\<open>linalg.solve\<close>
  refuses the values with ValueError when \<open>ordar \<ge> 1\<close>, and with \<open>ordar = 0\<close> the
  system is empty and only the gain \<open>MA\<close> is \<open>nan\<close>.
\<close>

definition whiten_estimate :: "arma \<Rightarrow> real list \<Rightarrow> bool \<Rightarrow> error + arma" where
  "whiten_estimate ar p zero_phase =
     (let has_nan = (zero_phase \<and> (\<exists>x \<in> set (take (fftlen ar) p). x < 0));
          p = (if zero_phase then map sqrt p else p);
          ar = ar\<lparr>psd := butlast (psd ar) @ [p]\<rparr>
      in case estimate ar None (- 1) of
           (Some e, _) \<Rightarrow> Inl (if has_nan \<and> e = LinAlgError then ValueError else e)
         | (None, ar) \<Rightarrow>
             if has_nan \<and> ordar ar \<noteq> 0 then Inl ValueError
             else Inr (if has_nan then ar\<lparr>MA := Some [NaN]\<rparr> else ar))"

text \<open>Lines 222 to 239.\<close>

definition whiten_fit :: "arma \<Rightarrow> real list \<Rightarrow> real list \<Rightarrow> bool \<Rightarrow> error + real list" where
  "whiten_fit ar p sig zero_phase =
     (case whiten_estimate ar p zero_phase of
        Inl e \<Rightarrow> Inl e
      | Inr ar \<Rightarrow> whiten_apply ar sig zero_phase)"

text \<open>
  Lines 196 to 251, without the plots (\<open>draw = ''\<close>). \<^verbatim>\<open>Spectrum.periodogram\<close> is not
  part of the sources: the transform length \<open>n\<close> and the periodogram \<open>p0\<close> of the
  signal enter as parameters. The two calls of lines 198 and 200 leave the history
  \<open>[p0, p0]\<close>.
\<close>

definition whiten ::
    "nat \<Rightarrow> nat \<Rightarrow> real list \<Rightarrow> real list \<Rightarrow> real \<Rightarrow> nat \<Rightarrow> real \<Rightarrow> real \<Rightarrow> bool \<Rightarrow> (error + real list) option" where
  "whiten fuel n p0 sig fs p_ord enf d_enf zero_phase =
     (let ar = \<lparr>ordar = p_ord, ordma = 0, fftlen = n, psd = [p0, p0], AR = None, MA = None\<rparr>
      in case notch_loop fuel n fs enf d_enf 1 p0 of
           None \<Rightarrow> None
         | Some (Inl e) \<Rightarrow> Some (Inl e)
         | Some (Inr p) \<Rightarrow> Some (whiten_fit ar p sig zero_phase))"

text \<open>Plain whitening: the same without the loop of lines 203 to 220.\<close>

definition whiten_plain ::
    "nat \<Rightarrow> real list \<Rightarrow> real list \<Rightarrow> nat \<Rightarrow> bool \<Rightarrow> error + real list" where
  "whiten_plain n p0 sig p_ord zero_phase =
     whiten_fit \<lparr>ordar = p_ord, ordma = 0, fftlen = n, psd = [p0, p0], AR = None, MA = None\<rparr>
       p0 sig zero_phase"

subsection \<open>Auxiliary definitions of the proofs\<close>

text \<open>
  The output of a block for the frequency \<open>f\<close>: the signal less the estimate of
  \<open>single_estimate\<close>, when the regression succeeds; its energy is \<open>vdot r r\<close>.
\<close>

definition residual :: "real list \<Rightarrow> real \<Rightarrow> int \<Rightarrow> real \<Rightarrow> real list option" where
  "residual blk fs hmax f =
     (case single_estimate blk f fs hmax of
        Inl e \<Rightarrow> None
      | Inr sigenf \<Rightarrow> (case np_binop (-) blk sigenf of Inl e \<Rightarrow> None | Inr sigout \<Rightarrow> Some sigout))"

text \<open>
  The invariant of the search: the best frequency is one of those tried, the best
  output and the best energy are its residual and its energy, and no frequency
  tried so far has a smaller energy.
\<close>

definition search_inv :: "real list \<Rightarrow> real \<Rightarrow> int \<Rightarrow> search \<Rightarrow> bool" where
  "search_inv blk fs hmax s \<longleftrightarrow>
     best_f s \<in> set (tried s)
     \<and> residual blk fs hmax (best_f s) = Some (best_sigout s)
     \<and> best_energy s = vdot (best_sigout s) (best_sigout s)
     \<and> (\<forall>f \<in> set (tried s). \<exists>r. residual blk fs hmax f = Some r \<and> best_energy s \<le> vdot r r)"

text \<open>The shifts of line 73, written out.\<close>

definition shifts18 :: "int list" where
  "shifts18 = [- 9, - 8, - 7, - 6, - 5, - 4, - 3, - 2, - 1, 1, 2, 3, 4, 5, 6, 7, 8, 9]"

text \<open>The first half of the window of an even block length \<open>2 h\<close>, after line 35.\<close>

definition half_window :: "nat \<Rightarrow> real list" where
  "half_window h = map2 (/) (take h (hamming (2 * int h)))
      (map2 (+) (take h (hamming (2 * int h))) (drop h (hamming (2 * int h))))"

section \<open>Properties\<close>

subsection \<open>Slices and the window\<close>

lemma slice_bound_nonneg:
  assumes "0 \<le> i" "i \<le> n"
  shows "slice_bound n i = nat i"
  using assms by (simp add: slice_bound_def)

lemma py_slice_nonneg:
  assumes "0 \<le> a" "a \<le> b" "b \<le> int (length xs)"
  shows "py_slice xs a b = take (nat b - nat a) (drop (nat a) xs)"
  using assms by (simp add: py_slice_def slice_bound_nonneg Let_def)

lemma splice_nonneg:
  assumes "0 \<le> a" "a \<le> b" "b \<le> int (length xs)"
  shows "splice xs a b v = take (nat a) xs @ v @ drop (nat b) xs"
  using assms by (simp add: splice_def slice_bound_nonneg Let_def max_def nat_le_eq_zle)

lemma map2_snd:
  assumes "length xs = length ys"
  shows "map2 (\<lambda>_ y. y) xs ys = ys"
  using assms by (simp add: list_eq_iff_nth_eq)

lemma length_hamming: "length (hamming M) = nat M"
  by (simp add: hamming_def)

lemma hamming_nth:
  assumes "2 \<le> M" "n < nat M"
  shows "hamming M ! n = 0.54 - 0.46 * cos (2 * pi * real n / real_of_int (M - 1))"
  using assms by (simp add: hamming_def)

lemma hamming_pos:
  assumes "2 \<le> M" "n < nat M"
  shows "0 < hamming M ! n"
proof -
  define c where "c = cos (2 * pi * real n / real_of_int (M - 1))"
  have "c \<le> 1" by (simp add: c_def)
  then have "0 < 0.54 - 0.46 * c" by simp
  then show ?thesis using assms unfolding c_def by (simp only: hamming_nth)
qed

lemma hamming_sym:
  assumes "2 \<le> M" "n < nat M"
  shows "hamming M ! (nat M - 1 - n) = hamming M ! n"
proof -
  let ?d = "real_of_int (M - 1)"
  have d: "?d \<noteq> 0" using assms by simp
  have "real (nat M - 1 - n) = ?d - real n" using assms by (simp add: of_nat_diff)
  then have "2 * pi * real (nat M - 1 - n) / ?d = 2 * pi - 2 * pi * real n / ?d"
    using d by (simp add: field_simps)
  then have "cos (2 * pi * real (nat M - 1 - n) / ?d) = cos (2 * pi * real n / ?d)"
    by (simp add: cos_diff)
  moreover have "nat M - 1 - n < nat M" using assms by simp
  ultimately show ?thesis using assms by (simp add: hamming_nth)
qed


lemma dehum_window_even:
  assumes "0 < h"
  shows "dehum_window (2 * int h) = Inr (half_window h @ rev (half_window h))"
proof -
  let ?w = "hamming (2 * int h)"
  have len: "length ?w = 2 * h" by (simp add: length_hamming)
  have s1: "py_slice ?w 0 (int h) = take h ?w"
    by (subst py_slice_nonneg) (simp_all add: len)
  have s2: "py_slice ?w (int h) (2 * int h) = drop h ?w"
    by (subst py_slice_nonneg) (simp_all add: len)
  let ?s = "map2 (+) (take h ?w) (drop h ?w)"
  have b: "np_binop (+) (take h ?w) (drop h ?w) = Inr ?s"
    by (simp add: np_binop_def len)
  let ?w1 = "half_window h @ drop h ?w"
  have lh: "length (half_window h) = h" by (simp add: half_window_def len)
  have i1: "np_islice (/) ?w 0 (int h) ?s = Inr ?w1"
    by (simp add: np_islice_def s1 len Let_def half_window_def splice_nonneg)
  have len1: "length ?w1 = 2 * h" by (simp add: lh len)
  have t1: "py_slice ?w1 0 (int h) = half_window h"
    by (subst py_slice_nonneg) (simp_all add: len1 lh)
  have t2: "py_slice ?w1 (int h) (2 * int h) = drop h ?w"
    by (subst py_slice_nonneg) (simp_all add: len1 lh len)
  have lr: "length (rev (half_window h)) = length (drop h ?w)" by (simp add: lh len)
  have sp: "splice ?w1 (int h) (2 * int h) (rev (half_window h)) = half_window h @ rev (half_window h)"
    by (subst splice_nonneg) (simp_all add: lh len)
  have i2: "np_islice (\<lambda>_ y. y) ?w1 (int h) (2 * int h) (rev (half_window h))
      = Inr (half_window h @ rev (half_window h))"
    unfolding np_islice_def t2 Let_def using lr sp by (simp add: map2_snd)
  have d2: "2 * int h div 2 = int h" by simp
  show ?thesis
    unfolding dehum_window_def Let_def d2 s1 s2 b sum.case i1 t1 i2 ..
qed

lemma ratio_pair:
  fixes a b :: real
  assumes "0 < a" "0 < b"
  shows "a / (a + b) + b / (b + a) = 1"
proof -
  have "b + a = a + b" by simp
  then have "a / (a + b) + b / (b + a) = (a + b) / (a + b)"
    by (simp only: add_divide_distrib)
  also have "\<dots> = 1" using assms by simp
  finally show ?thesis .
qed

lemma half_window_nth:
  assumes "i < h"
  shows "half_window h ! i = hamming (2 * int h) ! i / (hamming (2 * int h) ! i + hamming (2 * int h) ! (h + i))"
  using assms by (simp add: half_window_def length_hamming)

lemma half_window_pair:
  assumes "i < h"
  shows "half_window h ! i + half_window h ! (h - 1 - i) = 1"
proof -
  let ?w = "hamming (2 * int h)"
  have M: "2 \<le> 2 * int h" using assms by simp
  have n2: "nat (2 * int h) = 2 * h" by simp
  have e1: "nat (2 * int h) - 1 - (h + i) = h - 1 - i" using assms unfolding n2 by arith
  have e2: "nat (2 * int h) - 1 - i = h + (h - 1 - i)" using assms unfolding n2 by arith
  have sym1: "?w ! (h + i) = ?w ! (h - 1 - i)"
  proof -
    have "h + i < nat (2 * int h)" using assms unfolding n2 by arith
    from hamming_sym [OF M this] show ?thesis unfolding e1 by simp
  qed
  have sym2: "?w ! (h + (h - 1 - i)) = ?w ! i"
  proof -
    have "i < nat (2 * int h)" using assms unfolding n2 by arith
    from hamming_sym [OF M this] show ?thesis unfolding e2 by simp
  qed
  have p1: "0 < ?w ! i" using hamming_pos [OF M, of i] assms by simp
  have p2: "0 < ?w ! (h - 1 - i)" using hamming_pos [OF M, of "h - 1 - i"] assms by simp
  have hi: "h - 1 - i < h" using assms by arith
  have "half_window h ! i = ?w ! i / (?w ! i + ?w ! (h - 1 - i))"
    unfolding half_window_nth [OF assms] sym1 ..
  moreover have "half_window h ! (h - 1 - i) = ?w ! (h - 1 - i) / (?w ! (h - 1 - i) + ?w ! i)"
    unfolding half_window_nth [OF hi] sym2 ..
  ultimately show ?thesis using ratio_pair [OF p1 p2] by (simp only:)
qed


text \<open>
  Claim C1. For every even block length \<open>blklen \<ge> 2\<close> the window of dehummer is built
  without an exception, has \<open>blklen\<close> entries, and satisfies
  \<open>window[i] + window[i + blklen/2] = 1\<close> for every \<open>0 \<le> i < blklen/2\<close> (in exact
  arithmetic).
\<close>

theorem dehummer_window_overlap_sum:
  assumes "even blklen" and "2 \<le> blklen" and "0 \<le> i" and "i < blklen div 2"
  shows "\<exists>window. dehum_window blklen = Inr window \<and> int (length window) = blklen
           \<and> window ! nat i + window ! nat (i + blklen div 2) = 1"
proof -
  define h where "h = nat (blklen div 2)"
  have bl: "blklen = 2 * int h" using assms(1,2) by (auto simp: h_def elim: evenE)
  have hp: "0 < h" using assms(2) bl by simp
  have ih: "nat i < h" using assms(3,4) bl by simp
  have lh: "length (half_window h) = h" by (simp add: half_window_def length_hamming)
  have w: "dehum_window blklen = Inr (half_window h @ rev (half_window h))"
    unfolding bl by (rule dehum_window_even [OF hp])
  have a: "(half_window h @ rev (half_window h)) ! nat i = half_window h ! nat i"
    using ih by (simp add: nth_append lh)
  have idx: "nat (i + blklen div 2) = h + nat i" using assms(3) bl by simp
  have b: "(half_window h @ rev (half_window h)) ! nat (i + blklen div 2) = half_window h ! (h - 1 - nat i)"
    unfolding idx using ih by (simp add: nth_append lh rev_nth)
  have "int (length (half_window h @ rev (half_window h))) = blklen" by (simp add: lh bl)
  then show ?thesis using w a b half_window_pair [OF ih] by simp
qed

theorem dehummer_window_overlap_sum_witness:
  "\<exists>window. dehum_window 4 = Inr window \<and> int (length window) = 4
           \<and> window ! nat 1 + window ! nat (1 + 4 div 2) = 1"
  using dehummer_window_overlap_sum [of 4 1] by simp

subsection \<open>The block loop's indices\<close>

lemma ceil_div_le: 
  fixes a h :: int assumes "0 < h"
  shows "- ((- a) div h) \<le> a div h + 1"
  using assms by (simp add: zdiv_zminus1_eq_if)

lemma div_shift: fixes a h :: int assumes "0 < h" shows "(- (a + h)) div h = (- a) div h - 1"
proof -
  have "(- a) div h = ((- (a + h)) + h) div h" by simp
  also have "\<dots> = (- (a + h)) div h + 1" using assms by (subst div_add_self2) simp_all
  finally show ?thesis by simp
qed

lemma block_count_le:
  assumes "2 \<le> blklen" "even blklen"
  shows "- ((- (tmax + blklen div 2)) div (blklen div 2)) \<le> freq_len tmax blklen"
proof -
  obtain h where h: "blklen = 2 * h" using assms(2) by (auto elim: evenE)
  have hp: "0 < h" using assms(1) h by simp
  have "- ((- (tmax + h)) div h) = - ((- tmax) div h) + 1"
    using div_shift [OF hp, of tmax] by simp
  also have "\<dots> \<le> tmax div h + 2" using ceil_div_le [OF hp, of tmax] by simp
  finally show ?thesis using hp by (simp add: freq_len_def h)
qed

lemma block_centres_Inr:
  assumes "2 \<le> blklen"
  shows "block_centres tmax blklen =
    Inr (map (\<lambda>j. int j * (blklen div 2)) [0..<nat (- ((- (tmax + blklen div 2)) div (blklen div 2)))])"
  using assms by (simp add: block_centres_def py_range_def)

lemma block_bounds_ok:
  assumes "1 \<le> tmax" "2 \<le> blklen" "even blklen" "0 \<le> tmid" "tmid < tmax + blklen div 2"
  shows "case block_bounds tmax blklen tmid of (tstart, tstop, wstart, wstop) \<Rightarrow>
           0 \<le> tstart \<and> tstart \<le> tstop \<and> tstop \<le> tmax \<and> tstop - tstart = wstop - wstart
         \<and> 0 \<le> wstart \<and> wstart \<le> wstop \<and> wstop \<le> blklen"
  using assms by (auto simp: block_bounds_def Let_def split: if_splits)

lemma block_centre_range:
  fixes h :: int
  assumes "0 < h" "j < nat (- ((- (tmax + h)) div h))"
  shows "int j * h < tmax + h"
proof -
  have "int j < - ((- (tmax + h)) div h)" using assms(2) by simp
  then have "(- (tmax + h)) div h < - int j" by simp
  then have "(- (tmax + h)) div h \<le> - int j - 1" by simp
  then have "h * ((- (tmax + h)) div h) \<le> h * (- int j - 1)"
    using assms(1) by (simp add: mult_left_mono)
  moreover have "- (tmax + h) = h * ((- (tmax + h)) div h) + (- (tmax + h)) mod h"
    by (rule mult_div_mod_eq [symmetric])
  moreover have "(- (tmax + h)) mod h < h" using assms(1) by (rule pos_mod_bound)
  ultimately have "- (tmax + h) < h * (- int j - 1) + h" by linarith
  then show ?thesis by (simp add: algebra_simps)
qed

text \<open>
  Claim C10. For every signal length \<open>tmax \<ge> 1\<close> and even block length \<open>blklen \<ge> 2\<close>,
  every block of the loop has \<open>0 \<le> tstart \<le> tstop \<le> tmax\<close> and
  \<open>tstop - tstart = wstop - wstart\<close> (with \<open>0 \<le> wstart \<le> wstop \<le> blklen\<close>), and the
  number of blocks is at most the length \<open>2 + 2 * tmax // blklen\<close> of the frequency
  track, so that every write \<open>freq[kf]\<close> is in range.
\<close>

theorem dehummer_block_indices_in_bounds:
  assumes "1 \<le> tmax" and "2 \<le> blklen" and "even blklen"
  shows "\<exists>tmids. block_centres tmax blklen = Inr tmids
           \<and> int (length tmids) \<le> freq_len tmax blklen
           \<and> (\<forall>tmid \<in> set tmids.
                 case block_bounds tmax blklen tmid of (tstart, tstop, wstart, wstop) \<Rightarrow>
                   0 \<le> tstart \<and> tstart \<le> tstop \<and> tstop \<le> tmax
                   \<and> tstop - tstart = wstop - wstart
                   \<and> 0 \<le> wstart \<and> wstart \<le> wstop \<and> wstop \<le> blklen)"
proof -
  let ?n = "nat (- ((- (tmax + blklen div 2)) div (blklen div 2)))"
  let ?tmids = "map (\<lambda>j. int j * (blklen div 2)) [0..<?n]"
  have hp: "0 < blklen div 2" using assms(2) by simp
  have c: "block_centres tmax blklen = Inr ?tmids" by (rule block_centres_Inr [OF assms(2)])
  have "0 \<le> freq_len tmax blklen"
    using assms hp by (simp add: freq_len_def pos_imp_zdiv_nonneg_iff)
  then have n: "int (length ?tmids) \<le> freq_len tmax blklen"
    using block_count_le [OF assms(2,3), of tmax] by simp
  have "\<forall>tmid \<in> set ?tmids.
          case block_bounds tmax blklen tmid of (tstart, tstop, wstart, wstop) \<Rightarrow>
            0 \<le> tstart \<and> tstart \<le> tstop \<and> tstop \<le> tmax
            \<and> tstop - tstart = wstop - wstart
            \<and> 0 \<le> wstart \<and> wstart \<le> wstop \<and> wstop \<le> blklen"
  proof
    fix tmid assume "tmid \<in> set ?tmids"
    then obtain j where j: "j < ?n" and t: "tmid = int j * (blklen div 2)" by auto
    have "0 \<le> tmid" using hp t by simp
    moreover have "tmid < tmax + blklen div 2"
      unfolding t by (rule block_centre_range [OF hp j])
    ultimately show "case block_bounds tmax blklen tmid of (tstart, tstop, wstart, wstop) \<Rightarrow>
            0 \<le> tstart \<and> tstart \<le> tstop \<and> tstop \<le> tmax
            \<and> tstop - tstart = wstop - wstart
            \<and> 0 \<le> wstart \<and> wstart \<le> wstop \<and> wstop \<le> blklen"
      by (rule block_bounds_ok [OF assms])
  qed
  with c n show ?thesis by blast
qed

theorem dehummer_block_indices_in_bounds_witness:
  "block_centres 5 4 = Inr [0, 2, 4, 6] \<and> freq_len 5 4 = 4
   \<and> (\<exists>tmids. block_centres 5 4 = Inr tmids
           \<and> int (length tmids) \<le> freq_len 5 4
           \<and> (\<forall>tmid \<in> set tmids.
                 case block_bounds 5 4 tmid of (tstart, tstop, wstart, wstop) \<Rightarrow>
                   0 \<le> tstart \<and> tstart \<le> tstop \<and> tstop \<le> 5
                   \<and> tstop - tstart = wstop - wstart
                   \<and> 0 \<le> wstart \<and> wstart \<le> wstop \<and> wstop \<le> 4))"
proof -
  have "block_centres 5 4 = Inr [0, 2, 4, 6]"
    by (simp add: block_centres_def py_range_def upt_conv_Cons)
  moreover have "freq_len 5 4 = 4" by (simp add: freq_len_def)
  ultimately show ?thesis using dehummer_block_indices_in_bounds [of 5 4] by simp
qed

subsection \<open>dehummer without harmonics\<close>

lemma dehum_window_nonpos:
  assumes "blklen \<le> 0"
  shows "dehum_window blklen = Inr []"
  using assms by (simp add: dehum_window_def hamming_def py_slice_def np_binop_def np_islice_def splice_def Let_def)

lemma dehum_window_even_Inr:
  assumes "even blklen"
  shows "\<exists>window. dehum_window blklen = Inr window"
proof (cases "blklen \<le> 0")
  case True
  then show ?thesis by (simp add: dehum_window_nonpos)
next
  case False
  define h where "h = nat (blklen div 2)"
  have bl: "blklen = 2 * int h" using assms False by (auto simp: h_def elim: evenE)
  have hp: "0 < h" using False bl by simp
  show ?thesis unfolding bl using dehum_window_even [OF hp] by simp
qed

lemma py_int_floor:
  assumes "0 \<le> x"
  shows "py_int x = \<lfloor>x\<rfloor>"
  using assms by (simp add: py_int_def)

lemma py_int_small:
  assumes "0 \<le> x" "x < 1"
  shows "py_int x = 0"
  using assms by (simp add: py_int_def floor_eq_iff)

text \<open>
  Claim C7, amended. For an even block length and \<open>enf \<noteq> 0\<close>: whenever the clamped
  \<open>hmax = min(hmax, int(0.5 * fs / enf))\<close> is 0, dehummer returns the input signal
  unmodified, with no regression solve and no exception. \<open>int\<close> is the floor for
  \<open>fs / enf \<ge> 0\<close>, and the clamped \<open>hmax\<close> is 0 in particular for \<open>hmax \<ge> 0\<close> and
  \<open>0 \<le> 0.5 * fs / enf < 1\<close>.
\<close>

theorem dehummer_zero_harmonics_returns_input:
  assumes "even blklen" and "enf \<noteq> 0"
  shows "(min hmax (py_int (0.5 * fs / enf)) = 0 \<longrightarrow>
            dehummer_run sig fs enf hmax blklen = Inr \<lparr>result = sig, freq = [], kf = 0, solves = 0\<rparr>
            \<and> dehummer sig fs enf hmax blklen = Inr sig)
         \<and> (0 \<le> fs / enf \<longrightarrow> py_int (0.5 * fs / enf) = \<lfloor>0.5 * fs / enf\<rfloor>)
         \<and> (0 \<le> hmax \<and> 0 \<le> fs / enf \<and> 0.5 * fs / enf < 1 \<longrightarrow>
              min hmax (py_int (0.5 * fs / enf)) = 0)"
proof -
  obtain window where w: "dehum_window blklen = Inr window"
    using dehum_window_even_Inr [OF assms(1)] by blast
  have a: "min hmax (py_int (0.5 * fs / enf)) = 0 \<longrightarrow>
            dehummer_run sig fs enf hmax blklen = Inr \<lparr>result = sig, freq = [], kf = 0, solves = 0\<rparr>
            \<and> dehummer sig fs enf hmax blklen = Inr sig"
    using assms(2) w by (simp add: dehummer_run_def dehummer_def Let_def)
  have b: "0 \<le> fs / enf \<longrightarrow> py_int (0.5 * fs / enf) = \<lfloor>0.5 * fs / enf\<rfloor>"
    by (simp add: py_int_floor)
  have c: "0 \<le> hmax \<and> 0 \<le> fs / enf \<and> 0.5 * fs / enf < 1 \<longrightarrow>
              min hmax (py_int (0.5 * fs / enf)) = 0"
    by (simp add: py_int_small min_def)
  from a b c show ?thesis by blast
qed

theorem dehummer_zero_harmonics_returns_input_witness:
  "min 5 (py_int (0.5 * 100 / 60)) = 0
   \<and> dehummer_run [1, 2, 3] 100 60 5 4 = Inr \<lparr>result = [1, 2, 3], freq = [], kf = 0, solves = 0\<rparr>
   \<and> dehummer [1, 2, 3] 100 60 5 4 = Inr [1, 2, 3]"
proof -
  have "min 5 (py_int (0.5 * 100 / 60)) = 0" by (simp add: py_int_def)
  then show ?thesis
    using dehummer_zero_harmonics_returns_input [of 4 60 5 100 "[1, 2, 3]"] by simp
qed

text \<open>
  Claim C7 as stated fails for an odd block length: the window is built before the
  test \<open>hmax == 0\<close>, and line 35 raises ValueError on halves of different lengths.
\<close>

theorem dehummer_zero_harmonics_odd_block_counterexample:
  "min 5 \<lfloor>0.5 * 100 / 60 :: real\<rfloor> = 0 \<and> dehummer [1, 2, 3] 100 60 5 3 = Inl ValueError"
proof -
  have "length (hamming 3) = 3" by (simp add: length_hamming)
  then have "dehum_window 3 = Inl ValueError"
    by (simp add: dehum_window_def py_slice_def slice_bound_def np_binop_def np_islice_def Let_def)
  then show ?thesis by (simp add: dehummer_def dehummer_run_def)
qed

subsection \<open>Arma.estimate\<close>

lemma py_index_err:
  assumes "py_index xs i = Inl e"
  shows "e = IndexError"
  using assms by (auto simp: py_index_def Let_def split: if_splits)

lemma np_take_err:
  assumes "np_take xs idx = Inl e"
  shows "e = IndexError"
  using assms by (induction idx) (auto split: sum.splits dest: py_index_err)

lemma solve_err:
  assumes "solve A b = Inl e"
  shows "e = ValueError \<or> e = LinAlgError"
  using assms by (auto simp: solve_def split: if_splits)

lemma length_ifft: "length (ifft x n) = n"
  by (simp add: ifft_def)

lemma py_slice_take:
  assumes "n \<le> length xs"
  shows "py_slice xs 0 (int n) = take n xs"
  using assms by (simp add: py_slice_nonneg)

lemma py_index_nonneg:
  assumes "i < length xs"
  shows "py_index xs (int i) = Inr (xs ! i)"
  using assms by (simp add: py_index_def)

lemma np_take_upt:
  assumes "m \<le> length xs"
  shows "np_take xs (map int [0..<m]) = Inr (take m xs)"
  using assms
proof (induction m)
  case 0
  then show ?case by simp
next
  case (Suc m)
  have a: "np_take xs (map int [0..<m]) = Inr (take m xs)" using Suc by simp
  have gen: "\<And>is vs. np_take xs is = Inr vs \<Longrightarrow> np_take xs (is @ [int m]) = Inr (vs @ [xs ! m])"
  proof -
    fix "is" vs show "np_take xs is = Inr vs \<Longrightarrow> np_take xs (is @ [int m]) = Inr (vs @ [xs ! m])"
      using Suc.prems
      by (induction "is" arbitrary: vs) (auto simp: py_index_nonneg split: sum.splits)
  qed
  show ?case using gen [OF a] Suc.prems by (simp add: take_Suc_conv_app_nth)
qed

lemma toeplitz_take:
  assumes "m \<le> length c"
  shows "toeplitz (take m c) (take m c) = map (\<lambda>i. map (\<lambda>j. c ! nat \<bar>int i - int j\<bar>) [0..<m]) [0..<m]"
  using assms by (auto simp: toeplitz_def nat_diff_distrib' intro!: nth_equalityI)

lemma py_slice_shift1:
  assumes "Suc m \<le> length c"
  shows "py_slice c 1 (int m + 1) = map (\<lambda>i. c ! (i + 1)) [0..<m]"
  using assms by (subst py_slice_nonneg) (auto intro!: nth_equalityI simp: nat_add_distrib)

lemma solve_length:
  assumes "solve A b = Inr x"
  shows "length x = length A"
  using assms by (auto simp: solve_def split: if_splits)

lemma vdot_sum:
  assumes "length a = m"
  shows "vdot a (map f [0..<m]) = (\<Sum>i\<leftarrow>[0..<m]. a ! i * f i)"
proof -
  have "map2 (*) a (map f [0..<m]) = map (\<lambda>i. a ! i * f i) [0..<m]"
    using assms by (auto intro!: nth_equalityI)
  then show ?thesis by (simp add: vdot_def)
qed

lemma estimate_eq_spec:
  assumes "ordma self = 0" and "ordar self < fftlen self"
    and "py_index (psd self) numpsd = Inr p"
    and "nbcorr = None \<or> nbcorr = Some (ordar self)"
  shows "estimate self nbcorr numpsd =
     (case yule_walker_spec p (fftlen self) (ordar self) of
        Inl e \<Rightarrow> (Some e, self)
      | Inr (a, g) \<Rightarrow> (None, self\<lparr>AR := Some a, MA := Some [g]\<rparr>))"
proof -
  define correl where "correl = map Re (ifft p (fftlen self))"
  define m where "m = ordar self"
  have len: "length correl = fftlen self" by (simp add: correl_def length_ifft)
  have m1: "Suc m \<le> length correl" using assms(2) len by (simp add: m_def)
  have nb: "(case nbcorr of None \<Rightarrow> ordar self | Some n \<Rightarrow> n) = m"
    using assms(4) by (auto simp: m_def)
  have col1: "py_slice correl 0 (int m) = take m correl"
    using m1 by (simp add: py_slice_take)
  have idx: "map (\<lambda>j. \<bar>int 0 - int j\<bar>) [0..<m] = map int [0..<m]" by simp
  have row1: "np_take correl (map (\<lambda>j. \<bar>0 - int j\<bar>) [0..<m]) = Inr (take m correl)"
    using np_take_upt [of m correl] m1 idx by simp
  have R: "toeplitz (take m correl) (take m correl)
      = map (\<lambda>i. map (\<lambda>j. correl ! nat \<bar>int i - int j\<bar>) [0..<m]) [0..<m]"
    using m1 by (simp add: toeplitz_take)
  have r: "py_slice correl 1 (int m + 1) = map (\<lambda>i. correl ! (i + 1)) [0..<m]"
    by (rule py_slice_shift1 [OF m1])
  have rneg: "map uminus (map (\<lambda>i. correl ! (i + 1)) [0..<m]) = map (\<lambda>i. - correl ! (i + 1)) [0..<m]"
    by simp
  let ?R = "map (\<lambda>i. map (\<lambda>j. correl ! nat \<bar>int i - int j\<bar>) [0..<m]) [0..<m]"
  let ?rhs = "map (\<lambda>i. - correl ! (i + 1)) [0..<m]"
  have fl: "\<not> fftlen self < 1" using assms(2) by simp
  show ?thesis
  proof (cases "solve ?R ?rhs")
    case (Inl e)
    then show ?thesis
      unfolding estimate_def yule_walker_spec_def
      using assms(1,3) fl nb col1 row1 R r rneg
      by (simp add: Let_def comp_def correl_def [symmetric] m_def [symmetric])
  next
    case (Inr a)
    have la: "length a = m" using solve_length [OF Inr] by simp
    have vd: "vdot a (map (\<lambda>i. correl ! (i + 1)) [0..<m]) = (\<Sum>i\<leftarrow>[0..<m]. a ! i * correl ! (i + 1))"
      by (rule vdot_sum [OF la])
    show ?thesis
      unfolding estimate_def yule_walker_spec_def
      using assms(1,3) fl nb col1 row1 R r rneg Inr la vd
      by (simp add: Let_def comp_def correl_def [symmetric] m_def [symmetric])
  qed
qed


lemma upt4: "[0..<4] = [0, 1, 2, 3]" by (simp add: upt_conv_Cons)
lemma upt2: "[0..<2] = [0, 1]" by (simp add: upt_conv_Cons)

lemma det1: "det [[x]] = x"
  by (simp add: del_nth_def)

text \<open>
  Claim C5. With \<open>ordma = 0\<close> (and the lags \<open>0..ordar\<close> present, \<open>ordar < fftlen\<close>),
  \<open>estimate\<close> computes exactly the steps of the specification: the correlation is the
  real part of the inverse Fourier transform of the PSD, the Toeplitz system of the
  lags \<open>0..ordar-1\<close> with the negated lags \<open>1..ordar\<close> on the right is solved for the AR
  coefficients, and the gain is the square root of
  \<open>correl[0] + sum_i AR[i] * correl[i+1]\<close>.
\<close>

theorem estimate_pure_ar_steps:
  assumes "ordma self = 0" and "ordar self < fftlen self"
    and "py_index (psd self) numpsd = Inr p"
  shows "estimate self None numpsd =
     (case yule_walker_spec p (fftlen self) (ordar self) of
        Inl e \<Rightarrow> (Some e, self)
      | Inr (a, g) \<Rightarrow> (None, self\<lparr>AR := Some a, MA := Some [g]\<rparr>))"
  using assms by (intro estimate_eq_spec) simp_all

theorem estimate_pure_ar_steps_witness:
  "estimate \<lparr>ordar = 1, ordma = 0, fftlen = 2, psd = [[3, 1]], AR = None, MA = None\<rparr> None (- 1)
   = (None, \<lparr>ordar = 1, ordma = 0, fftlen = 2, psd = [[3, 1]], AR = Some [- 1 / 2], MA = Some [Finite (sqrt (3 / 2))]\<rparr>)"
proof -
  have c: "map Re (ifft [3, 1] 2) = [2, 1]" by (simp add: ifft_def upt2)
  have "yule_walker_spec [3, 1] 2 1 = Inr ([- 1 / 2], Finite (sqrt (3 / 2)))"
    by (simp add: yule_walker_spec_def c solve_def det1 set_col_def np_sqrt_def Let_def)
  then show ?thesis
    using estimate_pure_ar_steps [of "\<lparr>ordar = 1, ordma = 0, fftlen = 2, psd = [[3, 1]], AR = None, MA = None\<rparr>" "- 1" "[3, 1]"]
    by (simp add: py_index_def)
qed

lemma ifft_zero:
  assumes "\<forall>x \<in> set p. x = 0"
  shows "map Re (ifft p n) = replicate n 0"
proof -
  let ?x = "take n p @ replicate (n - length p) 0"
  have z: "\<And>m. m < length ?x \<Longrightarrow> ?x ! m = 0"
  proof -
    fix m assume "m < length ?x"
    then have "?x ! m \<in> set ?x" by (rule nth_mem)
    then show "?x ! m = 0" using assms by (auto dest: in_set_takeD)
  qed
  have l: "length ?x = n" by simp
  have "\<And>k. (\<Sum>m\<leftarrow>[0..<n]. complex_of_real (?x ! m) * cis (2 * pi * real k * real m / real n)) = 0"
  proof -
    fix k
    have "map (\<lambda>m. complex_of_real (?x ! m) * cis (2 * pi * real k * real m / real n)) [0..<n]
        = map (\<lambda>m. 0) [0..<n]"
      using z l by (intro map_cong) auto
    then show "(\<Sum>m\<leftarrow>[0..<n]. complex_of_real (?x ! m) * cis (2 * pi * real k * real m / real n)) = 0"
      by (simp only:) simp
  qed
  then show ?thesis
    unfolding ifft_def Let_def by (auto intro!: nth_equalityI)
qed

lemma det_zero_row:
  assumes "\<forall>v \<in> set r. v = 0"
  shows "det (r # rs) = 0"
proof -
  have "map (\<lambda>j. (- 1) ^ j * r ! j * det (map (del_nth j) rs)) [0..<length r] = map (\<lambda>j. 0) [0..<length r]"
    using assms by (intro map_cong) auto
  then show ?thesis by (simp only: det.simps) simp
qed

text \<open>
  Claim C3, amended. With \<open>ordma = 0\<close> and \<open>ordar < fftlen\<close>: when the Toeplitz system
  is singular, as it is for an identically zero PSD and \<open>ordar \<ge> 1\<close>, \<open>estimate\<close> raises
  LinAlgError and leaves the object unchanged; when the system is regular it raises
  nothing and stores the gain \<open>np.sqrt(sigma2)\<close>, which is \<open>nan\<close> for a negative
  variance \<open>sigma2\<close>.
\<close>

theorem estimate_singular_system:
  assumes "ordma self = 0" and "ordar self < fftlen self"
    and "py_index (psd self) numpsd = Inr p"
    and "correl = map Re (ifft p (fftlen self))"
    and "R = map (\<lambda>i. map (\<lambda>j. correl ! nat \<bar>int i - int j\<bar>) [0..<ordar self]) [0..<ordar self]"
  shows "(det R = 0 \<longrightarrow> estimate self None numpsd = (Some LinAlgError, self))
       \<and> (1 \<le> ordar self \<and> (\<forall>x \<in> set p. x = 0) \<longrightarrow> det R = 0)
       \<and> (det R \<noteq> 0 \<longrightarrow>
            (\<exists>a sigma2. estimate self None numpsd
                 = (None, self\<lparr>AR := Some a, MA := Some [np_sqrt sigma2]\<rparr>)
               \<and> sigma2 = correl ! 0 + (\<Sum>i\<leftarrow>[0..<ordar self]. a ! i * correl ! (i + 1))))"
proof -
  have e: "estimate self None numpsd =
     (case yule_walker_spec p (fftlen self) (ordar self) of
        Inl e \<Rightarrow> (Some e, self)
      | Inr (a, g) \<Rightarrow> (None, self\<lparr>AR := Some a, MA := Some [g]\<rparr>))"
    using assms(1-3) by (intro estimate_eq_spec) simp_all
  have sq: "\<not> ((\<exists>r \<in> set R. length r \<noteq> length R)
       \<or> length (map (\<lambda>i. - correl ! (i + 1)) [0..<ordar self]) \<noteq> length R)"
    by (auto simp: assms(5))
  have a: "det R = 0 \<longrightarrow> estimate self None numpsd = (Some LinAlgError, self)"
    using sq unfolding e yule_walker_spec_def Let_def assms(4) [symmetric] assms(5) [symmetric] solve_def
    by simp
  have b: "1 \<le> ordar self \<and> (\<forall>x \<in> set p. x = 0) \<longrightarrow> det R = 0"
  proof
    assume h: "1 \<le> ordar self \<and> (\<forall>x \<in> set p. x = 0)"
    then have c0: "correl = replicate (fftlen self) 0" by (simp add: assms(4) ifft_zero)
    obtain m where m: "ordar self = Suc m" using h by (cases "ordar self") auto
    define row where "row = (\<lambda>i. map (\<lambda>j. correl ! nat \<bar>int i - int j\<bar>) [0..<ordar self])"
    have "[0..<ordar self] = 0 # [1..<ordar self]"
      unfolding m by (simp add: upt_conv_Cons del: upt_Suc)
    then have "map row [0..<ordar self] = row 0 # map row [1..<ordar self]"
      by (simp only: list.map)
    then have Req: "R = row 0 # map row [1..<ordar self]"
      unfolding assms(5) row_def .
    have zr: "\<forall>v \<in> set (row 0). v = 0"
      using assms(2) by (auto simp: c0 row_def)
    show "det R = 0" unfolding Req by (rule det_zero_row [OF zr])
  qed
  have c: "det R \<noteq> 0 \<longrightarrow>
            (\<exists>a sigma2. estimate self None numpsd
                 = (None, self\<lparr>AR := Some a, MA := Some [np_sqrt sigma2]\<rparr>)
               \<and> sigma2 = correl ! 0 + (\<Sum>i\<leftarrow>[0..<ordar self]. a ! i * correl ! (i + 1)))"
  proof
    assume d: "det R \<noteq> 0"
    define rhs where "rhs = map (\<lambda>i. - correl ! (i + 1)) [0..<ordar self]"
    define a where "a = map (\<lambda>i. det (set_col i rhs R) / det R) [0..<length R]"
    have "solve R rhs = Inr a"
      using sq d unfolding solve_def a_def rhs_def by simp
    then have "estimate self None numpsd
        = (None, self\<lparr>AR := Some a, MA := Some [np_sqrt
             (correl ! 0 + (\<Sum>i\<leftarrow>[0..<ordar self]. a ! i * correl ! (i + 1)))]\<rparr>)"
      unfolding e yule_walker_spec_def Let_def assms(4) [symmetric] assms(5) [symmetric]
        rhs_def [symmetric] by simp
    then show "\<exists>a sigma2. estimate self None numpsd
                 = (None, self\<lparr>AR := Some a, MA := Some [np_sqrt sigma2]\<rparr>)
               \<and> sigma2 = correl ! 0 + (\<Sum>i\<leftarrow>[0..<ordar self]. a ! i * correl ! (i + 1))"
      by blast
  qed
  from a b c show ?thesis by blast
qed

theorem estimate_singular_system_witness:
  "estimate \<lparr>ordar = 1, ordma = 0, fftlen = 2, psd = [[0, 0]], AR = None, MA = None\<rparr> None (- 1)
   = (Some LinAlgError, \<lparr>ordar = 1, ordma = 0, fftlen = 2, psd = [[0, 0]], AR = None, MA = None\<rparr>)"
  using estimate_singular_system [of "\<lparr>ordar = 1, ordma = 0, fftlen = 2, psd = [[0, 0]], AR = None, MA = None\<rparr>"
      "- 1" "[0, 0]", OF _ _ _ refl refl]
  by (simp add: py_index_def)

text \<open>
  Claim C3 as stated fails for a negative variance: for the PSD \<open>[-1, -1]\<close> the
  variance is \<open>-1\<close>, and \<open>estimate\<close> returns without an exception, with the gain \<open>nan\<close>.
\<close>

theorem estimate_negative_variance_counterexample:
  "map Re (ifft [- 1, - 1] 2) = [- 1, 0]
   \<and> estimate \<lparr>ordar = 1, ordma = 0, fftlen = 2, psd = [[- 1, - 1]], AR = None, MA = None\<rparr> None (- 1)
     = (None,
        \<lparr>ordar = 1, ordma = 0, fftlen = 2, psd = [[- 1, - 1]], AR = Some [0], MA = Some [NaN]\<rparr>)"
proof -
  have c: "map Re (ifft [- 1, - 1] 2) = [- 1, 0]" by (simp add: ifft_def upt2)
  then show ?thesis
    by (simp add: estimate_def py_index_def py_slice_def slice_bound_def toeplitz_def solve_def det1 set_col_def Let_def vdot_def np_sqrt_def)
qed

text \<open>
  Claim C8, amended. With \<open>ordma \<noteq> 0\<close> every call of \<open>estimate\<close> raises. When the
  exception is NotImplementedError the AR coefficients have been assigned before
  (line 52) and nothing else has changed; any other exception (of the indexing or
  of the solver) leaves the object unchanged.
\<close>

theorem estimate_nonzero_ordma:
  assumes "ordma self \<noteq> 0" and "estimate self nbcorr numpsd = (err, self')"
  shows "err \<noteq> None
       \<and> (err = Some NotImplementedError \<longrightarrow> (\<exists>a. self' = self\<lparr>AR := Some a\<rparr>))
       \<and> (err \<noteq> Some NotImplementedError \<longrightarrow> self' = self)"
  using assms unfolding estimate_def Let_def
  by (auto split: sum.splits if_splits dest: py_index_err np_take_err solve_err)

theorem estimate_nonzero_ordma_witness:
  "estimate \<lparr>ordar = 1, ordma = 1, fftlen = 4, psd = [[1, 0, 0, 0]], AR = None, MA = None\<rparr> None (- 1)
     = (Some NotImplementedError,
        \<lparr>ordar = 1, ordma = 1, fftlen = 4, psd = [[1, 0, 0, 0]], AR = Some [- 1], MA = None\<rparr>)
   \<and> (\<exists>a. \<lparr>ordar = 1, ordma = 1, fftlen = 4, psd = [[1, 0, 0, 0]], AR = Some [- 1], MA = None\<rparr>
          = \<lparr>ordar = 1, ordma = 1, fftlen = 4, psd = [[1, 0, 0, 0]], AR = None, MA = None\<rparr>\<lparr>AR := Some a\<rparr>)"
proof -
  have c: "map Re (ifft [1, 0, 0, 0] 4) = [1/4, 1/4, 1/4, 1/4]" by (simp add: ifft_def upt4)
  have e: "estimate \<lparr>ordar = 1, ordma = 1, fftlen = 4, psd = [[1, 0, 0, 0]], AR = None, MA = None\<rparr> None (- 1)
     = (Some NotImplementedError,
        \<lparr>ordar = 1, ordma = 1, fftlen = 4, psd = [[1, 0, 0, 0]], AR = Some [- 1], MA = None\<rparr>)"
    by (simp add: estimate_def py_index_def c py_slice_def slice_bound_def toeplitz_def solve_def det1 set_col_def Let_def)
  from estimate_nonzero_ordma [OF _ e] e show ?thesis by simp
qed

text \<open>
  Claim C8 as stated fails: the failing call is not a no-op, it has overwritten the
  AR coefficients.
\<close>

theorem estimate_nonzero_ordma_state_counterexample:
  "ordma \<lparr>ordar = 1, ordma = 1, fftlen = 4, psd = [[1, 0, 0, 0]], AR = None, MA = None\<rparr> \<noteq> 0
   \<and> estimate \<lparr>ordar = 1, ordma = 1, fftlen = 4, psd = [[1, 0, 0, 0]], AR = None, MA = None\<rparr> None (- 1)
     = (Some NotImplementedError,
        \<lparr>ordar = 1, ordma = 1, fftlen = 4, psd = [[1, 0, 0, 0]], AR = Some [- 1], MA = None\<rparr>)
   \<and> \<lparr>ordar = 1, ordma = 1, fftlen = 4, psd = [[1, 0, 0, 0]], AR = Some [- 1], MA = None\<rparr>
     \<noteq> \<lparr>ordar = 1, ordma = 1, fftlen = 4, psd = [[1, 0, 0, 0]], AR = None, MA = None\<rparr>"
proof -
  have c: "map Re (ifft [1, 0, 0, 0] 4) = [1/4, 1/4, 1/4, 1/4]" by (simp add: ifft_def upt4)
  show ?thesis
    by (simp add: estimate_def py_index_def c py_slice_def slice_bound_def toeplitz_def solve_def det1 set_col_def Let_def)
qed

subsection \<open>whiten: the notches\<close>

lemma slice_bound_neg:
  assumes "1 \<le> i" "i \<le> n"
  shows "slice_bound n (- i) = nat (n - i)"
  using assms by (simp add: slice_bound_def)

lemma mirror_splice:
  fixes p v :: "real list"
  assumes "1 \<le> a" "a \<le> b" "2 * b \<le> length p" "length v = b - a"
    and "p1 = take a p @ v @ drop b p"
    and "p2 = take (length p - b) p1 @ rev v @ drop (length p - a) p1"
  shows "length p1 = length p" and "length p2 = length p"
    and "take (b - a) (drop a p2) = v"
    and "take (b - a) (drop (length p - b) p2) = rev v"
    and "\<forall>j < length p. \<not> (a \<le> j \<and> j < b) \<and> \<not> (length p - b \<le> j \<and> j < length p - a) \<longrightarrow> p2 ! j = p ! j"
proof -
  show l1: "length p1 = length p" using assms(1-4) by (simp add: assms(5))
  show l2: "length p2 = length p" using assms(1-4) l1 by (simp add: assms(6))
  have t: "take (length p - b) p1 = take a p @ v @ take (length p - 2 * b) (drop b p)"
    using assms(1-4) by (simp add: assms(5) mult_2)
  show "take (b - a) (drop a p2) = v"
    using assms(1-4) unfolding assms(6) t by simp
  show "take (b - a) (drop (length p - b) p2) = rev v"
    using assms(1-4) l1 unfolding assms(6) by simp
  show "\<forall>j < length p. \<not> (a \<le> j \<and> j < b) \<and> \<not> (length p - b \<le> j \<and> j < length p - a) \<longrightarrow> p2 ! j = p ! j"
  proof (intro allI impI)
    fix j assume j: "j < length p" and o: "\<not> (a \<le> j \<and> j < b) \<and> \<not> (length p - b \<le> j \<and> j < length p - a)"
    have p1j: "\<And>i. i < length p \<Longrightarrow> \<not> (a \<le> i \<and> i < b) \<Longrightarrow> p1 ! i = p ! i"
      using assms(1-4) unfolding assms(5) by (auto simp: nth_append)
    show "p2 ! j = p ! j"
    proof (cases "j < length p - b")
      case True
      then have "p2 ! j = p1 ! j" using l1 unfolding assms(6) by (simp add: nth_append)
      then show ?thesis using p1j j o by simp
    next
      case False
      then have ja: "length p - a \<le> j" using o by simp
      have lx: "length (take (length p - b) p1) = length p - b" using l1 by simp
      have n1: "\<not> j < length (take (length p - b) p1)" using False lx by simp
      have n2: "\<not> j - (length p - b) < length (rev v)" using ja assms(1-4) by simp
      have e: "length p - a + (j - (length p - b) - (b - a)) = j" using ja assms(1-4) j by arith
      have "p2 ! j = (rev v @ drop (length p - a) p1) ! (j - (length p - b))"
        unfolding assms(6) using n1 lx by (simp only: nth_append if_False)
      also have "\<dots> = drop (length p - a) p1 ! (j - (length p - b) - length (rev v))"
        using n2 by (simp only: nth_append if_False)
      also have "\<dots> = p1 ! (length p - a + (j - (length p - b) - (b - a)))"
        using assms(4) l1 by (simp add: nth_drop)
      finally have "p2 ! j = p1 ! j" unfolding e .
      moreover have "\<not> (a \<le> j \<and> j < b)" using o by simp
      ultimately show ?thesis using p1j j by simp
    qed
  qed
qed

lemma assign_slice:
  assumes "length v = length (py_slice p lo hi)"
  shows "np_islice (\<lambda>_ y. y) p lo hi v = Inr (splice p lo hi v)"
  using assms by (simp add: np_islice_def Let_def map2_snd)

lemma notch_bins:
  assumes "0 < fs" and "0 \<le> d_enf" and "real k * (enf - d_enf) < fs / 2"
    and "kmin = max 0 (py_int (real n * (real k * (enf - d_enf)) / fs))"
    and "kmax = min (int n div 2) (py_int (real n * (real k * (enf + d_enf)) / fs) + 1)"
    and "1 \<le> kmin"
  shows "kmin \<le> kmax" and "2 * kmax \<le> int n"
proof -
  define x where "x = real n * (real k * (enf - d_enf)) / fs"
  define y where "y = real n * (real k * (enf + d_enf)) / fs"
  have kx: "1 \<le> py_int x" using assms(4,6) by (simp add: x_def)
  have x1: "1 \<le> x"
  proof (rule ccontr)
    assume "\<not> 1 \<le> x"
    then have "py_int x \<le> 0" by (auto simp: py_int_def floor_le_iff ceiling_le_iff)
    then show False using kx by simp
  qed
  then have fx: "py_int x = \<lfloor>x\<rfloor>" by (simp add: py_int_def)
  have npos: "0 < n" using x1 by (cases n) (simp_all add: x_def)
  have lt: "real n * (real k * (enf - d_enf)) < real n * (fs / 2)"
    by (intro mult_strict_left_mono assms(3)) (simp add: npos)
  have "x < real n * (fs / 2) / fs"
    unfolding x_def by (rule divide_strict_right_mono [OF lt assms(1)])
  then have xh: "x < real n / 2" using assms(1) by simp
  have fl: "real_of_int \<lfloor>x\<rfloor> \<le> x" by (rule of_int_floor_le)
  have "2 * real_of_int \<lfloor>x\<rfloor> < real n" using fl xh by linarith
  then have "2 * \<lfloor>x\<rfloor> < int n" by (metis of_int_less_iff of_int_mult of_int_numeral of_int_of_nat_eq)
  then have xn: "\<lfloor>x\<rfloor> \<le> int n div 2" by simp
  have "real k * (enf - d_enf) \<le> real k * (enf + d_enf)"
    using assms(2) by (simp add: mult_left_mono)
  then have "x \<le> y"
    unfolding x_def y_def using assms(1) by (simp add: divide_right_mono mult_left_mono)
  then have "\<lfloor>x\<rfloor> \<le> \<lfloor>y\<rfloor>" and "0 \<le> y" using x1 by (simp_all add: floor_mono)
  then have "\<lfloor>x\<rfloor> \<le> py_int y + 1" by (simp add: py_int_def)
  then show "kmin \<le> kmax"
    using xn kx fx unfolding assms(4,5) x_def [symmetric] y_def [symmetric] by simp
  show "2 * kmax \<le> int n"
    unfolding assms(5) by (simp add: min_def) linarith
qed

lemma interpol_eq:
  fixes Amin Amax :: real
  shows "map2 (+) (map ((*) Amin) (linspace 1 0 m)) (map ((*) Amax) (linspace 0 1 m))
       = map (\<lambda>i. Amin * (1 - real i / real m) + Amax * (real i / real m)) [0..<m]"
  by (auto simp: linspace_def intro!: nth_equalityI)

text \<open>
  The notch of a harmonic whose range starts above bin 0 (\<open>kmin \<ge> 1\<close>): the bins
  \<open>[kmin, kmax)\<close> hold the linear interpolation between \<open>p[kmin]\<close> and \<open>p[kmax]\<close>, the
  bins \<^verbatim>\<open>p[-kmax:-kmin]\<close> hold its reverse, and no other bin changes.
\<close>

lemma notch_step_regular:
  assumes "0 < fs" and "0 \<le> d_enf" and "real k * (enf - d_enf) < fs / 2" and "length p = n"
    and "kmin = max 0 (py_int (real n * (real k * (enf - d_enf)) / fs))"
    and "kmax = min (int n div 2) (py_int (real n * (real k * (enf + d_enf)) / fs) + 1)"
    and "1 \<le> kmin"
    and "interpol = map (\<lambda>i. p ! nat kmin * (1 - real i / real (nat (kmax - kmin)))
                            + p ! nat kmax * (real i / real (nat (kmax - kmin)))) [0..<nat (kmax - kmin)]"
  shows "kmin \<le> kmax
       \<and> (\<exists>p'. notch_step n fs enf d_enf k p = Inr p' \<and> length p' = n
             \<and> py_slice p' kmin kmax = interpol
             \<and> py_slice p' (- kmax) (- kmin) = rev interpol
             \<and> (\<forall>j < n. \<not> (nat kmin \<le> j \<and> j < nat kmax)
                      \<and> \<not> (n - nat kmax \<le> j \<and> j < n - nat kmin) \<longrightarrow> p' ! j = p ! j))"
proof -
  have le: "kmin \<le> kmax" and half: "2 * kmax \<le> int n"
    using notch_bins [OF assms(1,2,3,5,6,7)] by simp_all
  define a where "a = nat kmin"
  define b where "b = nat kmax"
  have ka: "kmin = int a" and kb: "kmax = int b" using assms(7) le by (simp_all add: a_def b_def)
  have a1: "1 \<le> a" and ab: "a \<le> b" and b2: "2 * b \<le> length p"
    using assms(7) le half by (simp_all add: a_def b_def assms(4))
  have bn: "b < n" using a1 ab b2 assms(4) by simp
  have m: "nat (kmax - kmin) = b - a" using le assms(7) by (simp add: a_def b_def nat_diff_distrib)
  have li: "length interpol = b - a" by (simp add: assms(8) m)
  define p1 where "p1 = take a p @ interpol @ drop b p"
  define p2 where "p2 = take (length p - b) p1 @ rev interpol @ drop (length p - a) p1"
  note ms = mirror_splice [OF a1 ab b2 li p1_def p2_def]
  have i1: "py_index p kmin = Inr (p ! a)" using a1 ab bn assms(4) by (simp add: py_index_def ka)
  have i2: "py_index p kmax = Inr (p ! b)" using bn assms(4) by (simp add: py_index_def kb)
  have s1: "py_slice p kmin kmax = take (b - a) (drop a p)"
    unfolding ka kb using ab bn assms(4) by (subst py_slice_nonneg) simp_all
  have sp1: "splice p kmin kmax interpol = p1"
    unfolding ka kb p1_def using ab bn assms(4) by (subst splice_nonneg) simp_all
  have n1: "np_islice (\<lambda>_ y. y) p kmin kmax interpol = Inr p1"
    using assign_slice [of interpol p kmin kmax] a1 ab bn assms(4) li s1 sp1 by simp
  have sb1: "slice_bound (int (length p1)) (- kmax) = length p - b"
    unfolding kb ms(1) using a1 ab bn assms(4) by (subst slice_bound_neg) (simp_all add: nat_diff_distrib)
  have sb2: "slice_bound (int (length p1)) (- kmin) = length p - a"
    unfolding ka ms(1) using a1 ab bn assms(4) by (subst slice_bound_neg) (simp_all add: nat_diff_distrib)
  have d: "length p - a - (length p - b) = b - a" using ab bn assms(4) by simp
  have s2: "length (py_slice p1 (- kmax) (- kmin)) = b - a"
    unfolding py_slice_def Let_def sb1 sb2 d using ms(1) ab bn assms(4) by simp
  have mx: "max (length p - b) (length p - a) = length p - a" using ab by simp
  have sp2: "splice p1 (- kmax) (- kmin) (rev interpol) = p2"
    unfolding splice_def Let_def sb1 sb2 mx p2_def ..
  have n2: "np_islice (\<lambda>_ y. y) p1 (- kmax) (- kmin) (rev interpol) = Inr p2"
    using assign_slice [of "rev interpol" p1 "- kmax" "- kmin"] li s2 sp2 by simp
  have ic: "map2 (+) (map ((*) (p ! a)) (linspace 1 0 (nat (kmax - kmin))))
                     (map ((*) (p ! b)) (linspace 0 1 (nat (kmax - kmin)))) = interpol"
    unfolding interpol_eq assms(8) a_def b_def ..
  have fs0: "fs \<noteq> 0" using assms(1) by simp
  have nl: "\<not> kmax - kmin < 0" using le by simp
  have step: "notch_step n fs enf d_enf k p = Inr p2"
    unfolding notch_step_def Let_def assms(5) [symmetric] assms(6) [symmetric]
    using fs0 nl by (simp add: i1 i2 ic n1 n2)
  have r1: "py_slice p2 kmin kmax = interpol"
    unfolding ka kb using ab bn assms(4) ms(2,3) by (subst py_slice_nonneg) simp_all
  have sb3: "slice_bound (int (length p2)) (- kmax) = length p - b"
    using sb1 ms(1,2) by simp
  have sb4: "slice_bound (int (length p2)) (- kmin) = length p - a"
    using sb2 ms(1,2) by simp
  have r2: "py_slice p2 (- kmax) (- kmin) = rev interpol"
    unfolding py_slice_def Let_def sb3 sb4 d by (rule ms(4))
  have r3: "\<forall>j < n. \<not> (nat kmin \<le> j \<and> j < nat kmax)
                      \<and> \<not> (n - nat kmax \<le> j \<and> j < n - nat kmin) \<longrightarrow> p2 ! j = p ! j"
    using ms(5) unfolding a_def b_def assms(4) .
  from le step ms(2) r1 r2 r3 assms(4) show ?thesis by simp
qed

text \<open>
  Claim C6 at a harmonic whose range starts at bin 0: with \<open>fftlen = 8\<close>, \<open>fs = 8\<close>,
  \<open>enf = 1\<close> and \<open>d_enf = 0.75\<close> the first harmonic has \<open>kmin = 0\<close> and \<open>kmax = 2\<close>; the
  slice \<^verbatim>\<open>psd[-2:-0]\<close> is empty, and the assignment of line 218 raises ValueError.
\<close>

theorem whiten_notch_at_bin_zero_raises:
  "real 1 * (1 - 3 / 4) < (8 :: real) / 2
   \<and> max 0 (py_int (real 8 * (real 1 * (1 - 3 / 4)) / 8)) = 0
   \<and> min (int 8 div 2) (py_int (real 8 * (real 1 * (1 + 3 / 4)) / 8) + 1) = 2
   \<and> notch_step 8 8 1 (3 / 4) 1 [1, 2, 3, 4, 5, 6, 7, 8] = Inl ValueError
   \<and> whiten 1 8 [1, 2, 3, 4, 5, 6, 7, 8] [1, 2, 3] 8 2 1 (3 / 4) True = Some (Inl ValueError)"
proof -
  have a: "py_int (1 / 4) = 0" by (simp add: py_int_def)
  have b: "py_int (7 / 4) = 1" by (simp add: py_int_def)
  have i: "map2 (+) (map ((*) 1) (linspace 1 0 2)) (map ((*) 3) (linspace 0 1 2)) = [1, 2 :: real]"
    by (simp add: linspace_def upt2)
  have n: "notch_step 8 8 1 (3 / 4) 1 [1, 2, 3, 4, 5, 6, 7, 8] = Inl ValueError"
    unfolding notch_step_def Let_def
    by (simp add: a b py_index_def i np_islice_def py_slice_def slice_bound_def splice_def Let_def)
  have "whiten 1 8 [1, 2, 3, 4, 5, 6, 7, 8] [1, 2, 3] 8 2 1 (3 / 4) True = Some (Inl ValueError)"
    using notch_loop.simps(2) [of 0 8 8 1 "3 / 4" 1 "[1, 2, 3, 4, 5, 6, 7, 8]"] n
    by (simp add: whiten_def)
  with n a b show ?thesis by simp
qed

text \<open>
  When no harmonic fits below the Nyquist frequency the loop body is never run, and
  \<open>whiten\<close> is the plain whitening of the unmodified PSD.
\<close>

lemma whiten_no_harmonic:
  assumes "fs / 2 \<le> enf - d_enf"
  shows "whiten (Suc fuel) n p0 sig fs p_ord enf d_enf zero_phase
         = Some (whiten_plain n p0 sig p_ord zero_phase)"
proof -
  have "\<not> real 1 * (enf - d_enf) < fs / 2" using assms by simp
  then have "notch_loop (Suc fuel) n fs enf d_enf 1 p0 = Some (Inr p0)"
    by (simp only: notch_loop.simps if_False)
  then show ?thesis by (simp add: whiten_def whiten_plain_def)
qed

subsection \<open>whiten: the gain\<close>

text \<open>
  The loop of the notches ends, with a PSD or with an exception, whenever
  \<open>d_enf < enf\<close>: after at most \<open>ceil(fs / (2 (enf - d_enf)))\<close> harmonics.
\<close>

lemma notch_loop_ends_aux:
  assumes "0 < enf - d_enf" and "K = nat \<lceil>fs / (2 * (enf - d_enf))\<rceil>"
  shows "K - k = m \<Longrightarrow> \<exists>r. notch_loop (Suc m) n fs enf d_enf k p = Some r"
proof (induction m arbitrary: k p)
  case 0
  define x where "x = fs / (2 * (enf - d_enf))"
  have "K \<le> k" using "0.prems" by simp
  then have "\<lceil>x\<rceil> \<le> int k" unfolding assms(2) x_def [symmetric] by linarith
  then have "x \<le> real k" by (simp only: ceiling_le_iff)
  then have "fs \<le> real k * (2 * (enf - d_enf))"
    unfolding x_def using assms(1) by (simp add: pos_divide_le_eq)
  then have "\<not> real k * (enf - d_enf) < fs / 2" by (simp add: algebra_simps)
  then show ?case by simp
next
  case (Suc m)
  show ?case
  proof (cases "real k * (enf - d_enf) < fs / 2")
    case False
    then show ?thesis by simp
  next
    case True
    show ?thesis
    proof (cases "notch_step n fs enf d_enf k p")
      case (Inl e)
      then show ?thesis using True by simp
    next
      case (Inr p')
      have "K - Suc k = m" using Suc.prems by simp
      from Suc.IH [OF this, of p'] obtain r where "notch_loop (Suc m) n fs enf d_enf (Suc k) p' = Some r" ..
      then show ?thesis using True Inr by simp
    qed
  qed
qed

lemma notch_loop_ends:
  assumes "0 < enf - d_enf"
  shows "\<exists>fuel r. notch_loop fuel n fs enf d_enf k p = Some r"
  using notch_loop_ends_aux [OF assms refl refl] by blast




















end
